theory Spec2Isabelle
  imports Main "HOL-Library.Word"
begin

section \<open>Package cutil: the pointer guard\<close>

text \<open>
  The model is for a 64-bit platform: \<open>uintptr\<close>, \<open>C.size_t\<close> and \<open>C.uint64_t\<close> are
  64-bit words. A pointer is its address; \<open>nil\<close> is the address 0.
\<close>

type_synonym uintptr = "64 word"

text \<open>
  \<open>type PtrGuard struct { pinned, release sync.Mutex; ptr uintptr; store *uintptr }\<close>.
  A mutex is its state: \<open>True\<close> is locked. The zero value of the struct has both
  mutexes unlocked, \<open>ptr = 0\<close> and \<open>store = nil\<close>.
\<close>

record PtrGuard =
  pinned :: bool
  release :: bool
  ptr :: uintptr
  store :: uintptr

text \<open>
  The goroutine started by \<open>NewPtrGuard\<close> runs \<open>pinUntilRelease\<close> (lines 139 and 140)
  and then line 82. Its state is the statement it executes next.
\<close>

datatype goroutine =
    Unspawned
  | SendPinned      \<comment> \<open>line 139: \<open>v.pinned.Unlock()\<close>\<close>
  | WaitRelease     \<comment> \<open>line 140: \<open>v.release.Lock()\<close>\<close>
  | SendReleased    \<comment> \<open>line 82: \<open>v.pinned.Unlock()\<close>\<close>
  | Exited

text \<open>
  What the two threads share: the guard, the goroutine and the C memory, a map from the
  address of a pointer-wide cell to its content. Every non-nil \<open>CPtr\<close> is taken to
  address such a cell.
\<close>

record world =
  guard :: PtrGuard
  task :: goroutine
  cmem :: "uintptr \<Rightarrow> uintptr"

datatype failure =
    Panic string    \<comment> \<open>a Go panic\<close>
  | Fatal string    \<comment> \<open>a fatal error of the Go runtime\<close>

datatype 'a step =
    Go 'a           \<comment> \<open>the statement ran\<close>
  | Wait            \<comment> \<open>the statement blocks in this state\<close>
  | Fail failure

datatype 'a outcome =
    Ok 'a
  | Failed failure
  | Deadlock        \<comment> \<open>the caller blocks and the goroutine cannot move\<close>

subsection \<open>sync.Mutex\<close>

text \<open>
  \<open>Lock\<close> blocks while the mutex is locked. \<open>Unlock\<close> of an unlocked mutex is a
  fatal error of the runtime.
\<close>

definition Lock :: "bool \<Rightarrow> bool step" where
  "Lock m = (if m then Wait else Go True)"

definition Unlock :: "bool \<Rightarrow> bool step" where
  "Unlock m = (if m then Go False else Fail (Fatal ''sync: unlock of unlocked mutex''))"

subsection \<open>The statements of the calling thread\<close>

text \<open>
  A position of the calling thread is a source line of \<open>NewPtrGuard\<close> (N), \<open>Store\<close> (S)
  or \<open>Release\<close> (R), with the argument of the call while it is still needed.
\<close>

datatype pc =
    N71 uintptr | N74 | N75 | N80 | N85 | N86
  | S91 uintptr | S94 uintptr | S97 uintptr | S98 | S99
  | R104 | R107 | R108 | R109 | R110 | R112 | R113
  | Done

fun owner_step :: "pc \<Rightarrow> world \<Rightarrow> (pc \<times> world) step" where
  "owner_step (N71 goPtr) w = Go (N74, w\<lparr>guard := (guard w)\<lparr>ptr := goPtr\<rparr>\<rparr>)"
| "owner_step N74 w =
     (case Lock (release (guard w)) of
        Go m \<Rightarrow> Go (N75, w\<lparr>guard := (guard w)\<lparr>release := m\<rparr>\<rparr>)
      | Wait \<Rightarrow> Wait
      | Fail f \<Rightarrow> Fail f)"
| "owner_step N75 w =
     (case Lock (pinned (guard w)) of
        Go m \<Rightarrow> Go (N80, w\<lparr>guard := (guard w)\<lparr>pinned := m\<rparr>\<rparr>)
      | Wait \<Rightarrow> Wait
      | Fail f \<Rightarrow> Fail f)"
| "owner_step N80 w = Go (N85, w\<lparr>task := SendPinned\<rparr>)"
| "owner_step N85 w =
     (case Lock (pinned (guard w)) of
        Go m \<Rightarrow> Go (N86, w\<lparr>guard := (guard w)\<lparr>pinned := m\<rparr>\<rparr>)
      | Wait \<Rightarrow> Wait
      | Fail f \<Rightarrow> Fail f)"
| "owner_step N86 w = Go (Done, w)"
| "owner_step (S91 cPtr) w =
     (if ptr (guard w) = 0 then Go (Done, w) else Go (S94 cPtr, w))"
| "owner_step (S94 cPtr) w =
     (if store (guard w) \<noteq> 0 then Fail (Panic ''double call of Poke()'')
      else Go (S97 cPtr, w))"
| "owner_step (S97 cPtr) w = Go (S98, w\<lparr>guard := (guard w)\<lparr>store := cPtr\<rparr>\<rparr>)"
| "owner_step S98 w =
     (if store (guard w) = 0
      then Fail (Panic ''invalid memory address or nil pointer dereference'')
      else Go (S99, w\<lparr>cmem := (cmem w)(store (guard w) := ptr (guard w))\<rparr>))"
| "owner_step S99 w = Go (Done, w)"
| "owner_step R104 w =
     (if ptr (guard w) = 0 then Go (Done, w) else Go (R107, w))"
| "owner_step R107 w = Go (R108, w\<lparr>guard := (guard w)\<lparr>ptr := 0\<rparr>\<rparr>)"
| "owner_step R108 w =
     (if store (guard w) \<noteq> 0 then Go (R109, w) else Go (R112, w))"
| "owner_step R109 w = Go (R110, w\<lparr>cmem := (cmem w)(store (guard w) := 0)\<rparr>)"
| "owner_step R110 w = Go (R112, w\<lparr>guard := (guard w)\<lparr>store := 0\<rparr>\<rparr>)"
| "owner_step R112 w =
     (case Unlock (release (guard w)) of
        Go m \<Rightarrow> Go (R113, w\<lparr>guard := (guard w)\<lparr>release := m\<rparr>\<rparr>)
      | Wait \<Rightarrow> Wait
      | Fail f \<Rightarrow> Fail f)"
| "owner_step R113 w =
     (case Lock (pinned (guard w)) of
        Go m \<Rightarrow> Go (Done, w\<lparr>guard := (guard w)\<lparr>pinned := m\<rparr>\<rparr>)
      | Wait \<Rightarrow> Wait
      | Fail f \<Rightarrow> Fail f)"
| "owner_step Done w = Wait"

subsection \<open>The statements of the goroutine\<close>

fun task_step :: "world \<Rightarrow> world step" where
  "task_step w =
     (case task w of
        Unspawned \<Rightarrow> Wait
      | SendPinned \<Rightarrow>
          (case Unlock (pinned (guard w)) of
             Go m \<Rightarrow> Go (w\<lparr>guard := (guard w)\<lparr>pinned := m\<rparr>, task := WaitRelease\<rparr>)
           | Wait \<Rightarrow> Wait
           | Fail f \<Rightarrow> Fail f)
      | WaitRelease \<Rightarrow>
          (case Lock (release (guard w)) of
             Go m \<Rightarrow> Go (w\<lparr>guard := (guard w)\<lparr>release := m\<rparr>, task := SendReleased\<rparr>)
           | Wait \<Rightarrow> Wait
           | Fail f \<Rightarrow> Fail f)
      | SendReleased \<Rightarrow>
          (case Unlock (pinned (guard w)) of
             Go m \<Rightarrow> Go (w\<lparr>guard := (guard w)\<lparr>pinned := m\<rparr>, task := Exited\<rparr>)
           | Wait \<Rightarrow> Wait
           | Fail f \<Rightarrow> Fail f)
      | Exited \<Rightarrow> Wait)"

subsection \<open>Running a call\<close>

text \<open>
  The calling thread runs until it returns. Where it blocks, the goroutine runs; where
  both block, the call never returns. No statement is repeated except a blocked
  \<open>Lock\<close>, so the lines left to the caller and to the goroutine bound the run.
\<close>

fun lines_left :: "pc \<Rightarrow> nat" where
  "lines_left (N71 _) = 6" | "lines_left N74 = 5" | "lines_left N75 = 4"
| "lines_left N80 = 3" | "lines_left N85 = 2" | "lines_left N86 = 1"
| "lines_left (S91 _) = 5" | "lines_left (S94 _) = 4" | "lines_left (S97 _) = 3"
| "lines_left S98 = 2" | "lines_left S99 = 1"
| "lines_left R104 = 7" | "lines_left R107 = 6" | "lines_left R108 = 5"
| "lines_left R109 = 4" | "lines_left R110 = 3" | "lines_left R112 = 2"
| "lines_left R113 = 1"
| "lines_left Done = 0"

fun task_left :: "goroutine \<Rightarrow> nat" where
  "task_left Unspawned = 0" | "task_left SendPinned = 3" | "task_left WaitRelease = 2"
| "task_left SendReleased = 1" | "task_left Exited = 0"

function run :: "pc \<Rightarrow> world \<Rightarrow> world outcome" where
  "run p w =
     (if p = Done then Ok w
      else case owner_step p w of
             Go (p', w') \<Rightarrow> run p' w'
           | Fail f \<Rightarrow> Failed f
           | Wait \<Rightarrow>
               (case task_step w of
                  Go w' \<Rightarrow> run p w'
                | Fail f \<Rightarrow> Failed f
                | Wait \<Rightarrow> Deadlock))"
  by pat_completeness auto
termination
proof (relation "measures [\<lambda>(p, w). lines_left p, \<lambda>(p, w). task_left (task w)]")
  show "wf (measures [\<lambda>(p, w). lines_left p, \<lambda>(p, w :: world). task_left (task w)])"
    by simp
next
  fix p w x p' w'
  assume "owner_step p w = Go x" "(p', w') = x"
  then have "lines_left p' < lines_left p"
    by (cases p) (auto simp: Lock_def Unlock_def split: if_splits)
  then show "((p', w'), (p, w)) \<in> measures [\<lambda>(p, w). lines_left p, \<lambda>(p, w). task_left (task w)]"
    by simp
next
  fix p w w'
  assume "task_step w = Go w'"
  then have "task_left (task w') < task_left (task w)"
    by (cases "task w") (auto simp: Lock_def Unlock_def split: if_splits)
  then show "((p, w'), (p, w)) \<in> measures [\<lambda>(p, w). lines_left p, \<lambda>(p, w). task_left (task w)]"
    by simp
qed

declare run.simps [simp del]

text \<open>
  The same run, recording every state the call passes through, with the line about to
  execute: the steps of the call in their order.
\<close>

function trace :: "pc \<Rightarrow> world \<Rightarrow> (pc \<times> world) list" where
  "trace p w =
     (p, w) #
     (if p = Done then []
      else case owner_step p w of
             Go (p', w') \<Rightarrow> trace p' w'
           | Fail f \<Rightarrow> []
           | Wait \<Rightarrow>
               (case task_step w of
                  Go w' \<Rightarrow> trace p w'
                | Fail f \<Rightarrow> []
                | Wait \<Rightarrow> []))"
  by pat_completeness auto
termination
proof (relation "measures [\<lambda>(p, w). lines_left p, \<lambda>(p, w). task_left (task w)]")
  show "wf (measures [\<lambda>(p, w). lines_left p, \<lambda>(p, w :: world). task_left (task w)])"
    by simp
next
  fix p w x p' w'
  assume "owner_step p w = Go x" "(p', w') = x"
  then have "lines_left p' < lines_left p"
    by (cases p) (auto simp: Lock_def Unlock_def split: if_splits)
  then show "((p', w'), (p, w)) \<in> measures [\<lambda>(p, w). lines_left p, \<lambda>(p, w). task_left (task w)]"
    by simp
next
  fix p w w'
  assume "task_step w = Go w'"
  then have "task_left (task w') < task_left (task w)"
    by (cases "task w") (auto simp: Lock_def Unlock_def split: if_splits)
  then show "((p, w'), (p, w)) \<in> measures [\<lambda>(p, w). lines_left p, \<lambda>(p, w). task_left (task w)]"
    by simp
qed

declare trace.simps [simp del]

subsection \<open>NewPtrGuard, Store, Release\<close>

text \<open>
  \<open>NewPtrGuard\<close> starts from the zero value of the struct (\<open>var v PtrGuard\<close>), with no
  goroutine yet; the second argument is the C memory at the time of the call.
\<close>

definition NewPtrGuard :: "uintptr \<Rightarrow> (uintptr \<Rightarrow> uintptr) \<Rightarrow> world outcome" where
  "NewPtrGuard goPtr m =
     run (N71 goPtr)
       \<lparr>guard = \<lparr>pinned = False, release = False, ptr = 0, store = 0\<rparr>,
        task = Unspawned, cmem = m\<rparr>"

definition Store :: "uintptr \<Rightarrow> world \<Rightarrow> world outcome" where
  "Store cPtr w = run (S91 cPtr) w"

definition Release :: "world \<Rightarrow> world outcome" where
  "Release w = run R104 w"

text \<open>A guard's life: its construction, then calls of \<open>Store\<close> and \<open>Release\<close>.\<close>

datatype call = CallStore uintptr | CallRelease

fun calls :: "call list \<Rightarrow> world \<Rightarrow> world outcome" where
  "calls [] w = Ok w"
| "calls (CallStore cPtr # cs) w =
     (case Store cPtr w of Ok w' \<Rightarrow> calls cs w' | Failed f \<Rightarrow> Failed f | Deadlock \<Rightarrow> Deadlock)"
| "calls (CallRelease # cs) w =
     (case Release w of Ok w' \<Rightarrow> calls cs w' | Failed f \<Rightarrow> Failed f | Deadlock \<Rightarrow> Deadlock)"

definition guard_life :: "uintptr \<Rightarrow> (uintptr \<Rightarrow> uintptr) \<Rightarrow> call list \<Rightarrow> world outcome" where
  "guard_life goPtr m cs =
     (case NewPtrGuard goPtr m of
        Ok w \<Rightarrow> calls cs w
      | Failed f \<Rightarrow> Failed f
      | Deadlock \<Rightarrow> Deadlock)"

text \<open>
  Between two calls a guard is settled: both mutexes are locked, and the guard is either
  released with no cell bound (its goroutine gone, or waiting forever when the guard was
  made over a nil pointer), or pinned with the goroutine waiting at line 140.
\<close>

definition settled :: "world \<Rightarrow> bool" where
  "settled w =
     (pinned (guard w) \<and> release (guard w) \<and>
      (if ptr (guard w) = 0
       then store (guard w) = 0 \<and> (task w = WaitRelease \<or> task w = Exited)
       else task w = WaitRelease))"

text \<open>
  A thread can move when its next statement does not block. In a state where at most one
  of the two threads can move, the scheduler has no choice.
\<close>

definition moves :: "'a step \<Rightarrow> bool" where
  "moves s = (case s of Wait \<Rightarrow> False | Go _ \<Rightarrow> True | Fail _ \<Rightarrow> True)"

definition one_mover :: "pc \<times> world \<Rightarrow> bool" where
  "one_mover c = (\<not> (moves (owner_step (fst c) (snd c)) \<and> moves (task_step (snd c))))"



text \<open>The cell bound to a pinned guard holds the pinned address.\<close>

definition published :: "world \<Rightarrow> bool" where
  "published w =
     (ptr (guard w) \<noteq> 0 \<and> store (guard w) \<noteq> 0 \<longrightarrow>
      cmem w (store (guard w)) = ptr (guard w))"


section \<open>Package rados: the write step\<close>

text \<open>
  A \<open>[]byte\<close> is the address of its backing array and its elements; \<open>&b[0]\<close> checks
  the index 0 against the length, panics where it is out of range, and gives the address
  of the array otherwise.
\<close>

record byte_slice =
  base :: uintptr
  bytes :: "8 word list"

text \<open>
  \<open>type writeStep struct\<close>; the embedded \<open>withoutUpdate\<close> has no fields of its own
  here. \<open>pg\<close> points to the guard and its goroutine.
\<close>

record writeStep =
  b :: byte_slice
  pg :: world
  cBuffer :: uintptr
  cDataLen :: "64 word"
  cWriteLen :: "64 word"
  cOffset :: "64 word"

text \<open>The last argument is the C memory at the time of the call.\<close>

definition newWriteStep ::
  "byte_slice \<Rightarrow> 64 word \<Rightarrow> 64 word \<Rightarrow> (uintptr \<Rightarrow> uintptr) \<Rightarrow> writeStep outcome" where
  "newWriteStep bs writeLen offset m =
     (if \<not> 0 < length (bytes bs)
      then Failed (Panic ''index out of range [0] with length 0'')
      else
        (let bufPtr = base bs in
         case NewPtrGuard bufPtr m of
           Ok g \<Rightarrow>
             Ok \<lparr>b = bs, pg = g, cBuffer = bufPtr,
                 cDataLen = of_nat (length (bytes bs)),
                 cWriteLen = writeLen, cOffset = offset\<rparr>
         | Failed f \<Rightarrow> Failed f
         | Deadlock \<Rightarrow> Deadlock))"

definition free :: "writeStep \<Rightarrow> writeStep outcome" where
  "free v =
     (case Release (pg v) of
        Ok g \<Rightarrow> Ok (v\<lparr>pg := g\<rparr>)
      | Failed f \<Rightarrow> Failed f
      | Deadlock \<Rightarrow> Deadlock)"

section \<open>Package rbd: GetCreateTimestamp\<close>

text \<open>
  What \<open>GetCreateTimestamp\<close> calls lies outside these sources and is a parameter:
  \<open>image.validate(imageIsOpen)\<close> (\<open>None\<close> is a nil error), the C function
  \<open>rbd_get_create_timestamp\<close> (its return code, a C \<open>int\<close>, and the \<open>struct timespec\<close>
  it fills), \<open>getError\<close>, the conversion \<open>ts.CStructToTimespec\<close>, and the zero value
  \<open>Timespec{}\<close>.
\<close>

record ('img, 'cts, 'ts, 'err) rbd_externals =
  validate :: "'img \<Rightarrow> 'err option"
  rbd_get_create_timestamp :: "'img \<Rightarrow> 32 word \<times> 'cts"
  getError :: "32 word \<Rightarrow> 'err option"
  CStructToTimespec :: "'cts \<Rightarrow> 'ts"
  zeroTimespec :: "'ts"

definition GetCreateTimestamp ::
  "('img, 'cts, 'ts, 'err) rbd_externals \<Rightarrow> 'img \<Rightarrow> 'ts \<times> 'err option" where
  "GetCreateTimestamp ext img =
     (case validate ext img of
        Some err \<Rightarrow> (zeroTimespec ext, Some err)
      | None \<Rightarrow>
          (case rbd_get_create_timestamp ext img of
             (ret, cts) \<Rightarrow>
               if sint ret < 0 then (zeroTimespec ext, getError ext ret)
               else (CStructToTimespec ext cts, None)))"

section \<open>Example inputs\<close>

definition zero_mem :: "uintptr \<Rightarrow> uintptr" where
  "zero_mem a = 0"

text \<open>A guard over the address 4096: pinned, then stored in the cell 8, then released.\<close>

definition ex_pinned :: world where
  "ex_pinned =
     \<lparr>guard = \<lparr>pinned = True, release = True, ptr = 4096, store = 0\<rparr>,
      task = WaitRelease, cmem = zero_mem\<rparr>"

definition ex_bound :: world where
  "ex_bound =
     \<lparr>guard = \<lparr>pinned = True, release = True, ptr = 4096, store = 8\<rparr>,
      task = WaitRelease, cmem = zero_mem(8 := 4096)\<rparr>"

definition ex_released :: world where
  "ex_released =
     \<lparr>guard = \<lparr>pinned = True, release = True, ptr = 0, store = 0\<rparr>,
      task = Exited, cmem = zero_mem(8 := 0)\<rparr>"

text \<open>
  Externals for \<open>GetCreateTimestamp\<close>: images are numbered, image 0 is not open, image 1
  has no timestamp (the C call returns \<open>-2\<close>), any other image was created at second 7.
\<close>

definition ex_ext :: "(nat, int \<times> int, int \<times> int, string) rbd_externals" where
  "ex_ext =
     \<lparr>validate = (\<lambda>i. if i = 0 then Some ''image not open'' else None),
      rbd_get_create_timestamp = (\<lambda>i. if i = 1 then (- 2, (0, 0)) else (0, (7, 0))),
      getError = (\<lambda>r. if r = 0 then None else Some ''rbd error''),
      CStructToTimespec = (\<lambda>c. c),
      zeroTimespec = (0, 0)\<rparr>"

section \<open>The calls of a guard, one by one\<close>

lemma NewPtrGuard_eq:
  "NewPtrGuard A m =
     Ok \<lparr>guard = \<lparr>pinned = True, release = True, ptr = A, store = 0\<rparr>,
         task = WaitRelease, cmem = m\<rparr>"
  by (simp add: NewPtrGuard_def run.simps Lock_def Unlock_def)

lemma Store_dead: "ptr (guard w) = 0 \<Longrightarrow> Store c w = Ok w"
  by (simp add: Store_def run.simps)

lemma Store_bound:
  "ptr (guard w) \<noteq> 0 \<Longrightarrow> store (guard w) \<noteq> 0 \<Longrightarrow>
   Store c w = Failed (Panic ''double call of Poke()'')"
  by (simp add: Store_def run.simps)

lemma Store_nil:
  "ptr (guard w) \<noteq> 0 \<Longrightarrow> store (guard w) = 0 \<Longrightarrow>
   Store 0 w = Failed (Panic ''invalid memory address or nil pointer dereference'')"
  by (simp add: Store_def run.simps)

lemma Store_fresh:
  "ptr (guard w) \<noteq> 0 \<Longrightarrow> store (guard w) = 0 \<Longrightarrow> c \<noteq> 0 \<Longrightarrow>
   Store c w =
     Ok (w\<lparr>guard := (guard w)\<lparr>store := c\<rparr>, cmem := (cmem w)(c := ptr (guard w))\<rparr>)"
  by (simp add: Store_def run.simps)

lemma Release_dead: "ptr (guard w) = 0 \<Longrightarrow> Release w = Ok w"
  by (simp add: Release_def run.simps)

lemma Release_live:
  "ptr (guard w) \<noteq> 0 \<Longrightarrow> pinned (guard w) \<Longrightarrow> release (guard w) \<Longrightarrow>
   task w = WaitRelease \<Longrightarrow>
   Release w =
     Ok (w\<lparr>guard := \<lparr>pinned = True, release = True, ptr = 0, store = 0\<rparr>,
           task := Exited,
           cmem := (if store (guard w) \<noteq> 0 then (cmem w)(store (guard w) := 0)
                    else cmem w)\<rparr>)"
  by (simp add: Release_def run.simps Lock_def Unlock_def)

lemma trace_Store_dead:
  "ptr (guard w) = 0 \<Longrightarrow> trace (S91 c) w = [(S91 c, w), (Done, w)]"
  by (simp add: trace.simps)

lemma trace_Release_dead:
  "ptr (guard w) = 0 \<Longrightarrow> trace R104 w = [(R104, w), (Done, w)]"
  by (simp add: trace.simps)

lemma trace_Release_live:
  assumes "ptr (guard w) \<noteq> 0" "pinned (guard w)" "release (guard w)" "task w = WaitRelease"
  shows "trace R104 w =
    (let w1 = w\<lparr>guard := (guard w)\<lparr>ptr := 0\<rparr>\<rparr>;
         w2 = (if store (guard w) \<noteq> 0
               then w1\<lparr>cmem := (cmem w)(store (guard w) := 0)\<rparr> else w1);
         w3 = w2\<lparr>guard := (guard w2)\<lparr>store := 0\<rparr>\<rparr>;
         w4 = w3\<lparr>guard := (guard w3)\<lparr>release := False\<rparr>\<rparr>;
         w5 = w4\<lparr>guard := (guard w4)\<lparr>release := True\<rparr>, task := SendReleased\<rparr>;
         w6 = w5\<lparr>guard := (guard w5)\<lparr>pinned := False\<rparr>, task := Exited\<rparr>;
         w7 = w6\<lparr>guard := (guard w6)\<lparr>pinned := True\<rparr>\<rparr>
     in [(R104, w), (R107, w), (R108, w1)] @
        (if store (guard w) \<noteq> 0 then [(R109, w1), (R110, w2)] else []) @
        [(R112, w3), (R113, w4), (R113, w5), (R113, w6), (Done, w7)])"
  using assms by (simp add: trace.simps Lock_def Unlock_def Let_def)

subsection \<open>Settled guards\<close>

lemma Store_settled: "settled w \<Longrightarrow> Store c w = Ok w' \<Longrightarrow> settled w'"
proof (cases "ptr (guard w) = 0")
  case True
  assume "settled w" "Store c w = Ok w'"
  with True show ?thesis by (simp add: Store_dead)
next
  case live: False
  assume s: "settled w" and r: "Store c w = Ok w'"
  show ?thesis
  proof (cases "store (guard w) = 0")
    case True
    with live s r show ?thesis
      by (cases "c = 0") (auto simp: Store_nil Store_fresh settled_def)
  next
    case False
    with live r show ?thesis by (simp add: Store_bound)
  qed
qed

lemma Release_settled: "settled w \<Longrightarrow> Release w = Ok w' \<Longrightarrow> settled w'"
  by (cases "ptr (guard w) = 0") (auto simp: Release_dead Release_live settled_def)

lemma calls_settled: "settled w \<Longrightarrow> calls cs w = Ok w' \<Longrightarrow> settled w'"
proof (induction cs arbitrary: w)
  case Nil
  then show ?case by simp
next
  case (Cons c cs)
  show ?case
  proof (cases c)
    case (CallStore a)
    with Cons show ?thesis
      by (auto split: outcome.splits dest: Store_settled)
  next
    case CallRelease
    with Cons show ?thesis
      by (auto split: outcome.splits dest: Release_settled)
  qed
qed

lemma guard_life_settled: "guard_life A m cs = Ok w \<Longrightarrow> settled w"
  unfolding guard_life_def NewPtrGuard_eq
  by (simp, erule calls_settled [rotated]) (simp add: settled_def)

lemma settled_live:
  "settled w \<Longrightarrow> ptr (guard w) \<noteq> 0 \<Longrightarrow>
   pinned (guard w) \<and> release (guard w) \<and> task w = WaitRelease"
  by (simp add: settled_def)

subsection \<open>The schedule is forced\<close>

text \<open>
  In every state a call passes through, at most one of the two threads can move: the run
  defined above is the only one the two threads have.
\<close>

lemma NewPtrGuard_one_mover:
  "list_all one_mover
     (trace (N71 A)
        \<lparr>guard = \<lparr>pinned = False, release = False, ptr = 0, store = 0\<rparr>,
         task = Unspawned, cmem = m\<rparr>)"
  by (simp add: trace.simps Lock_def Unlock_def one_mover_def moves_def)

lemma Store_one_mover: "settled w \<Longrightarrow> list_all one_mover (trace (S91 c) w)"
  by (auto simp: trace.simps Lock_def Unlock_def one_mover_def moves_def settled_def
           split: if_splits)

lemma Release_one_mover: "settled w \<Longrightarrow> list_all one_mover (trace R104 w)"
  by (auto simp: trace.simps Lock_def Unlock_def one_mover_def moves_def settled_def
           split: if_splits)

subsection \<open>Release never restores the pinned address\<close>

lemma run_keeps_ptr:
  "run p w = Ok w' \<Longrightarrow> p \<in> {R108, R109, R110, R112, R113, Done} \<Longrightarrow>
   ptr (guard w') = ptr (guard w)"
proof (induction p w rule: run.induct)
  case (1 p w)
  show ?case
  proof (cases "p = Done")
    case True
    with "1.prems" show ?thesis by (simp add: run.simps)
  next
    case False
    show ?thesis
    proof (cases "owner_step p w")
      case (Go x)
      obtain p' w1 where x: "x = (p', w1)" by (cases x)
      from Go x False "1.prems"(1) have r: "run p' w1 = Ok w'"
        by (simp add: run.simps [of p w])
      from Go x "1.prems"(2)
      have "p' \<in> {R108, R109, R110, R112, R113, Done} \<and> ptr (guard w1) = ptr (guard w)"
        by (auto simp: Lock_def Unlock_def split: if_splits)
      with "1.IH"(1) [OF False Go x [symmetric] r] show ?thesis by simp
    next
      case Wait
      show ?thesis
      proof (cases "task_step w")
        case (Go w1)
        from Go Wait False "1.prems"(1) have r: "run p w1 = Ok w'"
          by (simp add: run.simps [of p w])
        from Go have "ptr (guard w1) = ptr (guard w)"
          by (auto simp: Lock_def Unlock_def split: goroutine.splits if_splits)
        with "1.IH"(2) [OF False Wait Go r "1.prems"(2)] show ?thesis by simp
      next
        case blocked: Wait
        with Wait False "1.prems"(1) show ?thesis by (simp add: run.simps [of p w])
      next
        case (Fail f)
        with Wait False "1.prems"(1) show ?thesis by (simp add: run.simps [of p w])
      qed
    next
      case (Fail f)
      with False "1.prems"(1) show ?thesis by (simp add: run.simps [of p w])
    qed
  qed
qed

lemma Release_Ok_ptr: "Release w = Ok w' \<Longrightarrow> ptr (guard w') = 0"
proof (cases "ptr (guard w) = 0")
  case True
  assume "Release w = Ok w'"
  with True show ?thesis by (simp add: Release_dead)
next
  case False
  assume "Release w = Ok w'"
  with False have "run R108 (w\<lparr>guard := (guard w)\<lparr>ptr := 0\<rparr>\<rparr>) = Ok w'"
    by (simp add: Release_def run.simps [of R104] run.simps [of R107])
  from run_keeps_ptr [OF this] show ?thesis by simp
qed

subsection \<open>A call returns what its last step leaves\<close>

lemma trace_nonempty: "trace p w \<noteq> []"
  by (subst trace.simps) simp

lemma run_Ok_trace: "run p w = Ok w' \<longleftrightarrow> last (trace p w) = (Done, w')"
proof (induction p w rule: run.induct)
  case (1 p w)
  show ?case
  proof (cases "p = Done")
    case True
    then show ?thesis by (simp add: run.simps [of Done w] trace.simps [of Done w])
  next
    case False
    show ?thesis
    proof (cases "owner_step p w")
      case (Go x)
      obtain p' w1 where x: "x = (p', w1)" by (cases x)
      from Go x False have r: "run p w = run p' w1"
        by (simp add: run.simps [of p w])
      from Go x False have t: "trace p w = (p, w) # trace p' w1"
        by (simp add: trace.simps [of p w])
      from "1.IH"(1) [OF False Go x [symmetric]] r t show ?thesis
        by (simp add: trace_nonempty)
    next
      case Wait
      show ?thesis
      proof (cases "task_step w")
        case (Go w1)
        from Go Wait False have r: "run p w = run p w1"
          by (simp add: run.simps [of p w])
        from Go Wait False have t: "trace p w = (p, w) # trace p w1"
          by (simp add: trace.simps [of p w])
        from "1.IH"(2) [OF False Wait Go] r t show ?thesis
          by (simp add: trace_nonempty)
      next
        case blocked: Wait
        with Wait False show ?thesis
          by (simp add: run.simps [of p w] trace.simps [of p w])
      next
        case (Fail f)
        with Wait False show ?thesis
          by (simp add: run.simps [of p w] trace.simps [of p w])
      qed
    next
      case (Fail f)
      with False show ?thesis
        by (simp add: run.simps [of p w] trace.simps [of p w])
    qed
  qed
qed


subsection \<open>The bound cell holds the pinned address\<close>

lemma Store_published: "published w \<Longrightarrow> Store c w = Ok w' \<Longrightarrow> published w'"
proof (cases "ptr (guard w) = 0")
  case True
  assume "published w" "Store c w = Ok w'"
  with True show ?thesis by (simp add: Store_dead)
next
  case live: False
  assume s: "published w" and r: "Store c w = Ok w'"
  show ?thesis
  proof (cases "store (guard w) = 0")
    case True
    with live s r show ?thesis
      by (cases "c = 0") (auto simp: Store_nil Store_fresh published_def)
  next
    case False
    with live r show ?thesis by (simp add: Store_bound)
  qed
qed

lemma Release_published: "Release w = Ok w' \<Longrightarrow> published w'"
  by (simp add: published_def Release_Ok_ptr)

lemma calls_published: "published w \<Longrightarrow> calls cs w = Ok w' \<Longrightarrow> published w'"
proof (induction cs arbitrary: w)
  case Nil
  then show ?case by simp
next
  case (Cons c cs)
  show ?case
  proof (cases c)
    case (CallStore a)
    with Cons show ?thesis
      by (auto split: outcome.splits dest: Store_published)
  next
    case CallRelease
    with Cons show ?thesis
      by (auto split: outcome.splits dest: Release_published)
  qed
qed

lemma guard_life_published: "guard_life A m cs = Ok w \<Longrightarrow> published w"
  unfolding guard_life_def NewPtrGuard_eq
  by (simp, erule calls_published [rotated]) (simp add: published_def)

subsection \<open>The goroutine between calls\<close>






subsection \<open>The example guard\<close>

lemma ex_pinned_life: "guard_life 4096 zero_mem [] = Ok ex_pinned"
  by (simp add: guard_life_def NewPtrGuard_eq ex_pinned_def)

lemma ex_bound_life: "guard_life 4096 zero_mem [CallStore 8] = Ok ex_bound"
  by (simp add: guard_life_def NewPtrGuard_eq Store_fresh ex_bound_def)

lemma ex_released_life: "guard_life 4096 zero_mem [CallStore 8, CallRelease] = Ok ex_released"
  by (simp add: guard_life_def NewPtrGuard_eq Store_fresh Release_live ex_released_def)

lemma ex_bound_Release: "Release ex_bound = Ok ex_released"
  by (simp add: Release_live ex_bound_def ex_released_def)

lemma ex_ext_getError: "\<forall>r. sint r < 0 \<longrightarrow> getError ex_ext r \<noteq> None"
  by (auto simp: ex_ext_def)

section \<open>Properties of the guard\<close>

text \<open>
  C1. For a guard constructed over a nonzero address \<open>A\<close> and a cell \<open>slot\<close> of C
  memory, the three calls construct, \<open>Store(slot)\<close>, \<open>Release\<close> all return; the cell holds
  exactly \<open>A\<close> when \<open>Store\<close> returns and exactly 0 when \<open>Release\<close> returns (and the
  goroutine has exited by then).
\<close>

theorem store_then_release:
  assumes "A \<noteq> 0" and "slot \<noteq> 0"
  shows "\<exists>w1 w2 w3.
           NewPtrGuard A m = Ok w1 \<and>
           Store slot w1 = Ok w2 \<and> cmem w2 slot = A \<and>
           Release w2 = Ok w3 \<and> cmem w3 slot = 0 \<and> task w3 = Exited"
  using assms by (simp add: NewPtrGuard_eq Store_fresh Release_live)

theorem store_then_release_witness:
  "(4096 :: uintptr) \<noteq> 0 \<and> (8 :: uintptr) \<noteq> 0 \<and>
   (\<exists>w1 w2 w3.
      NewPtrGuard 4096 zero_mem = Ok w1 \<and>
      Store 8 w1 = Ok w2 \<and> cmem w2 8 = 4096 \<and>
      Release w2 = Ok w3 \<and> cmem w3 8 = 0 \<and> task w3 = Exited)"
  using store_then_release [of 4096 8 zero_mem] by simp

text \<open>
  C2. \<open>Release\<close> is idempotent: on a guard on which \<open>Release\<close> has returned, a second
  \<open>Release\<close> returns at once, at line 105, with the guard, the goroutine and the C memory
  as they were; it passes through no blocking statement and no write.
\<close>

theorem Release_idempotent:
  assumes "Release w = Ok w'"
  shows "Release w' = Ok w' \<and> trace R104 w' = [(R104, w'), (Done, w')]"
  using Release_Ok_ptr [OF assms] by (simp add: Release_dead trace_Release_dead)

theorem Release_idempotent_witness:
  "Release ex_bound = Ok ex_released \<and>
   Release ex_released = Ok ex_released \<and>
   trace R104 ex_released = [(R104, ex_released), (Done, ex_released)]"
  using Release_idempotent [OF ex_bound_Release] ex_bound_Release by simp

text \<open>
  C3, as the code has it. On a guard over a nonzero address whose first \<open>Store\<close> bound
  a cell, a second \<open>Store\<close> with no \<open>Release\<close> before it panics with
  \<open>double call of Poke()\<close>. Once \<open>Release\<close> has run, between the two calls or before
  both, \<open>Store\<close> does not panic: it returns and leaves everything as it was.
\<close>

theorem second_Store:
  assumes "A \<noteq> 0" and "c1 \<noteq> 0"
  shows "guard_life A m [CallStore c1, CallStore c2] =
           Failed (Panic ''double call of Poke()'') \<and>
         (\<exists>w. guard_life A m [CallStore c1, CallRelease] = Ok w \<and>
              guard_life A m [CallStore c1, CallRelease, CallStore c2] = Ok w) \<and>
         (\<exists>w. guard_life A m [CallRelease] = Ok w \<and>
              guard_life A m [CallRelease, CallStore c1, CallStore c2] = Ok w)"
  using assms
  by (simp add: guard_life_def NewPtrGuard_eq Store_fresh Store_bound Release_live Store_dead)

theorem second_Store_witness:
  "guard_life 4096 zero_mem [CallStore 8, CallStore 16] =
     Failed (Panic ''double call of Poke()'') \<and>
   (\<exists>w. guard_life 4096 zero_mem [CallStore 8, CallRelease] = Ok w \<and>
        guard_life 4096 zero_mem [CallStore 8, CallRelease, CallStore 16] = Ok w) \<and>
   (\<exists>w. guard_life 4096 zero_mem [CallRelease] = Ok w \<and>
        guard_life 4096 zero_mem [CallRelease, CallStore 8, CallStore 16] = Ok w)"
  using second_Store [of 4096 8 zero_mem 16] by simp

text \<open>
  The second \<open>Store\<close> after a \<open>Release\<close> does not panic: the guard over 4096, stored in
  cell 8 and released, takes \<open>Store(16)\<close> and stays as it was.
\<close>

theorem second_Store_after_Release_counterexample:
  "guard_life 4096 zero_mem [CallStore 8, CallRelease, CallStore 16] = Ok ex_released"
  by (simp add: guard_life_def NewPtrGuard_eq Store_fresh Release_live Store_dead
                ex_released_def)

text \<open>
  C4, as the code has it. \<open>Release\<close> on a pinned guard with a bound cell zeroes the local
  address first (line 107) and the cell next (line 109), both before it fires the
  release signal (line 112) and before it returns. The local address is zero from line
  108 on; the cell holds the pinned address up to line 109 and 0 from line 110 on; so the
  steps at which the local address is zero while the cell still holds the address are
  lines 108 and 109, between the two writes, and no other. Whenever the release mutex is
  unlocked, both are zero. \<open>Release\<close> returns the last of these states.
\<close>

theorem Release_zeroes_ptr_then_cell:
  assumes "guard_life A m cs = Ok w" and "ptr (guard w) \<noteq> 0" and "store (guard w) \<noteq> 0"
  shows "map fst (trace R104 w) =
           [R104, R107, R108, R109, R110, R112, R113, R113, R113, Done] \<and>
         (\<forall>(p, s) \<in> set (trace R104 w).
            (ptr (guard s) = 0 \<longleftrightarrow> p \<notin> {R104, R107}) \<and>
            cmem s (store (guard w)) =
              (if p \<in> {R104, R107, R108, R109} then ptr (guard w) else 0) \<and>
            (\<not> release (guard s) \<longrightarrow> ptr (guard s) = 0 \<and> cmem s (store (guard w)) = 0)) \<and>
         (\<exists>w'. Release w = Ok w' \<and> last (trace R104 w) = (Done, w') \<and>
               ptr (guard w') = 0 \<and> cmem w' (store (guard w)) = 0)"
proof -
  from settled_live [OF guard_life_settled [OF assms(1)] assms(2)]
  have live: "pinned (guard w)" "release (guard w)" "task w = WaitRelease"
    by simp_all
  from guard_life_published [OF assms(1)] assms(2,3)
  have cell: "cmem w (store (guard w)) = ptr (guard w)"
    by (simp add: published_def)
  note t = trace_Release_live [OF assms(2) live]
  have order: "map fst (trace R104 w) =
      [R104, R107, R108, R109, R110, R112, R113, R113, R113, Done]"
    using assms(3) by (simp add: t Let_def)
  have states: "\<forall>(p, s) \<in> set (trace R104 w).
            (ptr (guard s) = 0 \<longleftrightarrow> p \<notin> {R104, R107}) \<and>
            cmem s (store (guard w)) =
              (if p \<in> {R104, R107, R108, R109} then ptr (guard w) else 0) \<and>
            (\<not> release (guard s) \<longrightarrow> ptr (guard s) = 0 \<and> cmem s (store (guard w)) = 0)"
    using assms(2,3) cell live by (simp add: t Let_def)
  have r: "\<exists>w'. Release w = Ok w' \<and> last (trace R104 w) = (Done, w') \<and>
               ptr (guard w') = 0 \<and> cmem w' (store (guard w)) = 0"
    using assms(2,3) live by (simp add: t Let_def Release_live)
  from order states r show ?thesis by blast
qed

theorem Release_zeroes_ptr_then_cell_witness:
  "(R108, ex_bound\<lparr>guard := (guard ex_bound)\<lparr>ptr := 0\<rparr>\<rparr>) \<in> set (trace R104 ex_bound) \<and>
   map fst (trace R104 ex_bound) =
     [R104, R107, R108, R109, R110, R112, R113, R113, R113, Done] \<and>
   ptr (guard (ex_bound\<lparr>guard := (guard ex_bound)\<lparr>ptr := 0\<rparr>\<rparr>)) = 0 \<and>
   cmem (ex_bound\<lparr>guard := (guard ex_bound)\<lparr>ptr := 0\<rparr>\<rparr>) 8 = 4096 \<and>
   Release ex_bound = Ok ex_released \<and> cmem ex_released 8 = 0"
proof -
  have mem: "(R108, ex_bound\<lparr>guard := (guard ex_bound)\<lparr>ptr := 0\<rparr>\<rparr>) \<in> set (trace R104 ex_bound)"
    by (simp add: trace_Release_live ex_bound_def Let_def)
  have p: "ptr (guard ex_bound) \<noteq> 0" and s: "store (guard ex_bound) \<noteq> 0"
    by (simp_all add: ex_bound_def)
  from Release_zeroes_ptr_then_cell [OF ex_bound_life p s] mem ex_bound_Release
  show ?thesis
    by (simp add: ex_bound_def ex_released_def)
qed

text \<open>
  At the third step of \<open>Release\<close> on the guard over 4096 bound to cell 8 (line 108, after
  line 107), the local address is already 0 and the cell still holds 4096.
\<close>

theorem Release_cell_after_ptr_counterexample:
  "guard_life 4096 zero_mem [CallStore 8] = Ok ex_bound \<and>
   fst (trace R104 ex_bound ! 2) = R108 \<and>
   ptr (guard (snd (trace R104 ex_bound ! 2))) = 0 \<and>
   cmem (snd (trace R104 ex_bound ! 2)) 8 = 4096"
  by (simp add: ex_bound_life trace_Release_live ex_bound_def Let_def)

text \<open>
  C5. On a pinned guard \<open>Release\<close> passes through these states, in this order: the local
  address is zeroed (line 107, giving \<open>w1\<close>); where a cell is bound, the cell is zeroed
  (line 109, giving \<open>w2\<close>) and the binding cleared (line 110, giving \<open>w3\<close>); the release
  signal is fired (line 112, giving \<open>w4\<close>); the caller blocks at line 113 while the
  goroutine takes the signal (\<open>w5\<close>) and confirms (\<open>w6\<close>), and then \<open>Release\<close> returns
  \<open>w7\<close>.
\<close>

theorem Release_steps_in_order:
  assumes "guard_life A m cs = Ok w" and "ptr (guard w) \<noteq> 0"
  shows
    "(let w1 = w\<lparr>guard := (guard w)\<lparr>ptr := 0\<rparr>\<rparr>;
         w2 = (if store (guard w) \<noteq> 0
               then w1\<lparr>cmem := (cmem w)(store (guard w) := 0)\<rparr> else w1);
         w3 = w2\<lparr>guard := (guard w2)\<lparr>store := 0\<rparr>\<rparr>;
         w4 = w3\<lparr>guard := (guard w3)\<lparr>release := False\<rparr>\<rparr>;
         w5 = w4\<lparr>guard := (guard w4)\<lparr>release := True\<rparr>, task := SendReleased\<rparr>;
         w6 = w5\<lparr>guard := (guard w5)\<lparr>pinned := False\<rparr>, task := Exited\<rparr>;
         w7 = w6\<lparr>guard := (guard w6)\<lparr>pinned := True\<rparr>\<rparr>
     in Release w = Ok w7 \<and>
        trace R104 w =
          [(R104, w), (R107, w), (R108, w1)] @
          (if store (guard w) \<noteq> 0 then [(R109, w1), (R110, w2)] else []) @
          [(R112, w3), (R113, w4), (R113, w5), (R113, w6), (Done, w7)])"
proof -
  from settled_live [OF guard_life_settled [OF assms(1)] assms(2)]
  have live: "pinned (guard w)" "release (guard w)" "task w = WaitRelease"
    by simp_all
  note t = trace_Release_live [OF assms(2) live]
  have "last (trace R104 w) =
     (Done, w\<lparr>guard := \<lparr>pinned = True, release = True, ptr = 0, store = 0\<rparr>,
           task := Exited,
           cmem := (if store (guard w) \<noteq> 0 then (cmem w)(store (guard w) := 0)
                    else cmem w)\<rparr>)"
    using live by (simp add: t Let_def)
  then have "Release w = Ok (snd (last (trace R104 w)))"
    by (simp add: Release_def run_Ok_trace)
  with t show ?thesis by (simp add: Let_def)
qed

theorem Release_steps_in_order_witness:
  "Release ex_bound = Ok ex_released \<and>
   map fst (trace R104 ex_bound) =
     [R104, R107, R108, R109, R110, R112, R113, R113, R113, Done] \<and>
   map fst (trace R104 ex_pinned) =
     [R104, R107, R108, R112, R113, R113, R113, Done] \<and>
   snd (last (trace R104 ex_bound)) = ex_released"
proof -
  have "ptr (guard ex_bound) \<noteq> 0" "ptr (guard ex_pinned) \<noteq> 0"
    by (simp_all add: ex_bound_def ex_pinned_def)
  from Release_steps_in_order [OF ex_bound_life this(1)]
       Release_steps_in_order [OF ex_pinned_life this(2)]
  show ?thesis
    by (simp add: Let_def ex_bound_def ex_pinned_def ex_released_def)
qed

text \<open>
  C6. On a released guard (pinned address zero) \<open>Store\<close> returns at once, at line 92,
  without panic: no step writes the cell, and the guard, the goroutine and the C memory
  are as they were.
\<close>

theorem Store_on_released_guard:
  assumes "ptr (guard w) = 0"
  shows "Store cPtr w = Ok w \<and> trace (S91 cPtr) w = [(S91 cPtr, w), (Done, w)]"
  using assms by (simp add: Store_dead trace_Store_dead)

theorem Store_on_released_guard_witness:
  "ptr (guard ex_released) = 0 \<and> Store 16 ex_released = Ok ex_released \<and>
   trace (S91 16) ex_released = [(S91 16, ex_released), (Done, ex_released)]"
proof -
  have h: "ptr (guard ex_released) = 0" by (simp add: ex_released_def)
  from Store_on_released_guard [OF h, of 16] h show ?thesis by simp
qed



text \<open>
  C8. A guard constructed over a nonzero pointer has, after its construction and after
  every \<open>Store\<close> or \<open>Release\<close> that returns: if the pinned address is zero, no cell is
  bound.
\<close>

theorem released_guard_unbound:
  assumes "A \<noteq> 0" and "guard_life A m cs = Ok w"
  shows "ptr (guard w) = 0 \<longrightarrow> store (guard w) = 0"
  using guard_life_settled [OF assms(2)] by (simp add: settled_def)

theorem released_guard_unbound_witness:
  "(4096 :: uintptr) \<noteq> 0 \<and>
   guard_life 4096 zero_mem [CallStore 8, CallRelease] = Ok ex_released \<and>
   ptr (guard ex_released) = 0 \<and> store (guard ex_released) = 0"
proof -
  have a: "(4096 :: uintptr) \<noteq> 0" by simp
  have z: "ptr (guard ex_released) = 0" by (simp add: ex_released_def)
  from released_guard_unbound [OF a ex_released_life] a z ex_released_life
  show ?thesis by simp
qed

section \<open>Properties of the write step\<close>

text \<open>
  C9. \<open>newWriteStep\<close> reads element 0 of its slice whatever the slice: on an empty
  slice the index is out of range and the call panics; on a non-empty slice the call
  returns a step whose \<open>cDataLen\<close> is the length of the slice, whose \<open>cWriteLen\<close> is the
  given \<open>writeLen\<close> and whose \<open>cOffset\<close> is the given \<open>offset\<close>.
\<close>

theorem newWriteStep_first_element:
  "(bytes bs = [] \<longrightarrow>
      newWriteStep bs writeLen offset m =
        Failed (Panic ''index out of range [0] with length 0'')) \<and>
   (bytes bs \<noteq> [] \<longrightarrow>
      (\<exists>v. newWriteStep bs writeLen offset m = Ok v \<and>
           cDataLen v = of_nat (length (bytes bs)) \<and>
           (length (bytes bs) < 2 ^ 64 \<longrightarrow> unat (cDataLen v) = length (bytes bs)) \<and>
           cWriteLen v = writeLen \<and> cOffset v = offset))"
  by (simp add: newWriteStep_def NewPtrGuard_eq unat_of_nat Let_def)

theorem newWriteStep_first_element_witness:
  "newWriteStep \<lparr>base = 4096, bytes = []\<rparr> 3 0 zero_mem =
     Failed (Panic ''index out of range [0] with length 0'') \<and>
   (\<exists>v. newWriteStep \<lparr>base = 4096, bytes = [1, 2, 3]\<rparr> 3 0 zero_mem = Ok v \<and>
        cDataLen v = 3 \<and> unat (cDataLen v) = 3 \<and> cWriteLen v = 3 \<and> cOffset v = 0)"
  using newWriteStep_first_element [of "\<lparr>base = 4096, bytes = []\<rparr>" 3 0 zero_mem]
        newWriteStep_first_element [of "\<lparr>base = 4096, bytes = [1, 2, 3]\<rparr>" 3 0 zero_mem]
  by (simp add: numeral_3_eq_3)

section \<open>Properties of GetCreateTimestamp\<close>

text \<open>
  C10. Where \<open>getError\<close> gives a non-nil error for every negative code,
  \<open>GetCreateTimestamp\<close> returns the zero \<open>Timespec\<close> and a non-nil error when the image
  fails the validation (that error) or the C call returns a negative code (the error of
  that code); its error is non-nil exactly on these two branches; otherwise it returns
  the converted timestamp and a nil error.
\<close>

theorem GetCreateTimestamp_errors:
  assumes "\<forall>r. sint r < 0 \<longrightarrow> getError ext r \<noteq> None"
  shows "(\<forall>e. validate ext img = Some e \<longrightarrow>
            GetCreateTimestamp ext img = (zeroTimespec ext, Some e)) \<and>
         (validate ext img = None \<and> sint (fst (rbd_get_create_timestamp ext img)) < 0 \<longrightarrow>
            fst (GetCreateTimestamp ext img) = zeroTimespec ext \<and>
            snd (GetCreateTimestamp ext img) =
              getError ext (fst (rbd_get_create_timestamp ext img)) \<and>
            snd (GetCreateTimestamp ext img) \<noteq> None) \<and>
         (snd (GetCreateTimestamp ext img) \<noteq> None \<longleftrightarrow>
            validate ext img \<noteq> None \<or>
            validate ext img = None \<and> sint (fst (rbd_get_create_timestamp ext img)) < 0) \<and>
         (validate ext img = None \<and> \<not> sint (fst (rbd_get_create_timestamp ext img)) < 0 \<longrightarrow>
            GetCreateTimestamp ext img =
              (CStructToTimespec ext (snd (rbd_get_create_timestamp ext img)), None))"
  using assms
  by (auto simp: GetCreateTimestamp_def split: option.splits prod.splits)

theorem GetCreateTimestamp_errors_witness:
  "GetCreateTimestamp ex_ext 0 = ((0, 0), Some ''image not open'') \<and>
   GetCreateTimestamp ex_ext 1 = ((0, 0), Some ''rbd error'') \<and>
   GetCreateTimestamp ex_ext 2 = ((7, 0), None)"
  using GetCreateTimestamp_errors [OF ex_ext_getError, of 0]
        GetCreateTimestamp_errors [OF ex_ext_getError, of 1]
        GetCreateTimestamp_errors [OF ex_ext_getError, of 2]
  by (simp add: ex_ext_def prod_eq_iff)

end
